theory Spec2Isabelle
  imports Complex_Main "HOL-Library.Log_Nat"
begin

section \<open>Flash Number Trainer: the run loop of \<open>src/app/page.tsx\<close>\<close>

text \<open>
  The repository is one React page. The part verified here is the stimulus generator
  \<open>generateStimulus\<close>, the component \<open>RunSession\<close> (phase, trial index, keypad input,
  results, pause, the phase timer), the completion callback \<open>onFinish\<close> of the parent
  component, and the score computed by \<open>ResultScreen\<close> and \<open>exportCSV\<close>.

  React is modelled as the code uses it:
  \<^item> a component's \<open>useState\<close> cells are the fields of one state record;
  \<^item> an event handler or timer callback is a closure over the values of the render
    that created it. A call \<open>setX(v)\<close> or \<open>setX(prev => ...)\<close> only changes the
    \<^emph>\<open>next\<close> render; the variables \<open>x\<close> that the closure reads keep the value of
    its own render. So a handler takes the pending state \<open>s\<close> it updates, and the
    values it reads from its closure are passed separately;
  \<^item> after a handler has run, the component renders again and the effects whose
    dependencies changed run again (\<open>afterRender\<close>);
  \<^item> \<open>Math.random()\<close> is a parameter \<open>random\<close>: \<open>random i\<close> is the value of the
    \<open>i\<close>-th call. \<open>Date.now()\<close> (the \<open>timestamp\<close> field of a result) and the
    lengths of the delays are not modelled: no property below depends on them.
\<close>

subsection \<open>JavaScript numbers\<close>

text \<open>
  A finite JavaScript Number is an IEEE 754 binary64 value, hence a rational number.
  \<open>binary64 q\<close> is the Number nearest to the rational \<open>q\<close> (round to nearest, ties to
  even, 53 significant bits, gradual underflow below \<open>2\<^sup>-\<^sup>1\<^sup>0\<^sup>2\<^sup>2\<close>), which is what
  \<open>*\<close> and \<open>/\<close> return for the exact product and quotient. Overflow to
  \<open>Infinity\<close> needs a magnitude of \<open>2\<^sup>1\<^sup>0\<^sup>2\<^sup>4\<close> and does not occur for the values of
  this program (array lengths, and random numbers below 1 times 10).
\<close>

definition binade :: "rat \<Rightarrow> int" where
  \<comment> \<open>for \<open>q > 0\<close>: the exponent \<open>e\<close> with \<open>2\<^sup>e \<le> q < 2\<^sup>e\<^sup>+\<^sup>1\<close>\<close>
  "binade q = (if 1 \<le> q then bitlen \<lfloor>q\<rfloor> - 1 else - bitlen (\<lceil>1 / q\<rceil> - 1))"

definition round_ties_even :: "rat \<Rightarrow> int" where
  "round_ties_even m =
     (let f = \<lfloor>m\<rfloor>; r = m - of_int f
      in if r < 1 / 2 then f else if 1 / 2 < r then f + 1
         else if even f then f else f + 1)"

definition binary64 :: "rat \<Rightarrow> rat" where
  "binary64 q =
     (if q = 0 then 0
      else (let u = 2 powi (max (binade \<bar>q\<bar>) (- 1022) - 52)
            in sgn q * of_int (round_ties_even (\<bar>q\<bar> / u)) * u))"

definition is_binary64 :: "rat \<Rightarrow> bool" where
  "is_binary64 q = (binary64 q = q)"

text \<open>The spacing of the Numbers around a positive \<open>q\<close> (used in the proofs only).\<close>

definition ulp :: "rat \<Rightarrow> rat" where
  "ulp q = 2 powi (max (binade q) (- 1022) - 52)"

text \<open>
  \<open>Math.random()\<close> returns a Number that is at least 0 and below 1; this is all
  that is assumed of it.
\<close>

definition Math_random_result :: "rat \<Rightarrow> bool" where
  "Math_random_result x = (is_binary64 x \<and> 0 \<le> x \<and> x < 1)"

definition js_mul :: "rat \<Rightarrow> rat \<Rightarrow> rat" where
  "js_mul a b = binary64 (a * b)"

definition Math_floor :: "rat \<Rightarrow> int" where
  "Math_floor x = \<lfloor>x\<rfloor>"

text \<open>
  What \<open>Math.round\<close> of a quotient times 100 can be: an integer, \<open>NaN\<close> (from
  \<open>0 / 0\<close>) or \<open>Infinity\<close> (from \<open>c / 0\<close> with \<open>c > 0\<close>). \<open>Math.round\<close> rounds a
  tie towards \<open>+\<infinity>\<close>.
\<close>

datatype js_number = Num int | NaN | Infinity

definition Math_round :: "rat \<Rightarrow> int" where
  "Math_round x = \<lfloor>x + 1 / 2\<rfloor>"

text \<open>\<open>toString\<close> of an integral Number below \<open>10\<^sup>2\<^sup>1\<close> is its decimal numeral.\<close>

definition digit_char :: "nat \<Rightarrow> char" where
  "digit_char d = char_of (48 + d)"

fun nat_toString :: "nat \<Rightarrow> string" where
  "nat_toString n =
     (if n < 10 then [digit_char n] else nat_toString (n div 10) @ [digit_char (n mod 10)])"

definition int_toString :: "int \<Rightarrow> string" where
  "int_toString i = (if i < 0 then CHR ''-'' # nat_toString (nat (- i)) else nat_toString (nat i))"

definition js_toString :: "js_number \<Rightarrow> string" where
  "js_toString x = (case x of Num i \<Rightarrow> int_toString i | NaN \<Rightarrow> ''NaN'' | Infinity \<Rightarrow> ''Infinity'')"

subsection \<open>Settings and \<open>generateStimulus\<close>\<close>

datatype number_range = Range_0_9 | Range_1_9

datatype answer_mode = Keypad | NoneMode

text \<open>
  The fields of \<open>DEFAULT_SETTINGS\<close> that the run loop and the result handler read.
  \<open>displaySec\<close>, \<open>itiSec\<close> and \<open>feedbackSec\<close> only set the lengths of delays.
\<close>

record settings =
  digits :: nat
  trialsPerSet :: nat
  numberRange :: number_range
  answerMode :: answer_mode
  feedback :: bool
  recording :: bool

definition maxVal :: nat where
  "maxVal = 9"

text \<open>
  The \<open>for\<close> loop of \<open>generateStimulus\<close>; \<open>random i\<close> is the value \<open>Math.random()\<close>
  returns in iteration \<open>i\<close>. The sum \<open>Math.floor(...) + minVal\<close> is exact, both
  operands being small integers.
\<close>

function generateStimulus_loop :: "(nat \<Rightarrow> rat) \<Rightarrow> nat \<Rightarrow> nat \<Rightarrow> nat \<Rightarrow> string \<Rightarrow> string" where
  "generateStimulus_loop random count minVal i numStr =
     (if i < count then
        (let digit = Math_floor (js_mul (random i) (of_nat (maxVal - minVal + 1))) + int minVal
         in generateStimulus_loop random count minVal (i + 1) (numStr @ int_toString digit))
      else numStr)"
  by pat_completeness auto
termination
  by (relation "measure (\<lambda>(random, count, minVal, i, numStr). count - i)") auto

definition generateStimulus :: "(nat \<Rightarrow> rat) \<Rightarrow> nat \<Rightarrow> number_range \<Rightarrow> string" where
  "generateStimulus random count numRange =
     (let minVal = (if numRange = Range_1_9 then 1 else 0)
      in generateStimulus_loop random count minVal 0 [])"

text \<open>The digit characters the specification allows for a range.\<close>

definition allowedDigits :: "number_range \<Rightarrow> string" where
  "allowedDigits r = (if r = Range_1_9 then ''123456789'' else ''0123456789'')"

subsection \<open>The state of the page\<close>

datatype phase = PREP | SHOW | HIDE | ANSWER | FEEDBACK

datatype view = HOME | SETTINGS | RUN | RESULT | HISTORY

datatype feedback_kind = Correct | Incorrect | Verbal

record trial_result =
  trial :: nat
  stimulus :: string
  input :: string
  isCorrect :: bool
  isVerbal :: bool

record history_record =
  h_settings :: settings
  h_results :: "trial_result list"
  h_total :: nat
  h_correct :: nat

text \<open>
  The values a pending timer callback has in its closure: the callbacks of the phase
  timer effect read \<open>phase\<close> (through the \<open>switch\<close>), \<open>trialIndex\<close>,
  \<open>currentStimulus\<close> and, through \<open>nextTrial\<close>, \<open>trialIndex\<close> and \<open>results\<close>.
\<close>

record timer_closure =
  t_phase :: phase
  t_trialIndex :: nat
  t_currentStimulus :: string
  t_results :: "trial_result list"

text \<open>
  \<open>view\<close>, \<open>sessionResults\<close> and \<open>currentHistory\<close> belong to \<open>FlashNumberTrainer\<close>,
  the fields from \<open>phase\<close> to \<open>feedbackState\<close> to \<open>RunSession\<close>. \<open>pendingTimer\<close> is
  the timeout held in \<open>timerRef\<close> if it is still to fire, \<open>randomPos\<close> the number of
  calls of \<open>Math.random()\<close> made so far, and \<open>finishCalls\<close> the arguments of the
  calls of \<open>onFinish\<close> made by this \<open>RunSession\<close>, in order.
\<close>

record app_state =
  view :: view
  sessionResults :: "trial_result list"
  currentHistory :: "history_record list"
  phase :: phase
  trialIndex :: nat
  currentStimulus :: string
  userInput :: string
  results :: "trial_result list"
  isPaused :: bool
  feedbackState :: "feedback_kind option"
  pendingTimer :: "timer_closure option"
  randomPos :: nat
  finishCalls :: "trial_result list list"

subsection \<open>The callbacks\<close>

text \<open>
  The \<open>onFinish\<close> that \<open>FlashNumberTrainer\<close> passes to \<open>RunSession\<close>, and the
  history record \<open>newRecord\<close> it builds when recording is on.
\<close>

definition newRecord :: "settings \<Rightarrow> trial_result list \<Rightarrow> history_record" where
  "newRecord st rs =
     (let correctCount = length (filter isCorrect rs)
      in \<lparr>h_settings = st, h_results = rs, h_total = length rs, h_correct = correctCount\<rparr>)"

definition onFinish :: "settings \<Rightarrow> trial_result list \<Rightarrow> app_state \<Rightarrow> app_state" where
  "onFinish st rs s =
     (let s1 = s\<lparr>sessionResults := rs, finishCalls := finishCalls s @ [rs]\<rparr>;
          s2 = (if recording st
                then s1\<lparr>currentHistory := currentHistory s @ [newRecord st rs]\<rparr>
                else s1)
      in s2\<lparr>view := RESULT\<rparr>)"

definition onAbort :: "app_state \<Rightarrow> app_state" where
  "onAbort s = s\<lparr>view := HOME\<rparr>"

text \<open>
  \<open>nextTrial\<close> reads \<open>trialIndex\<close> and \<open>results\<close> from its closure (the arguments
  \<open>c_trialIndex\<close> and \<open>c_results\<close>); \<open>setTrialIndex((prev) => prev + 1)\<close> works on
  the pending state.
\<close>

definition nextTrial :: "settings \<Rightarrow> nat \<Rightarrow> trial_result list \<Rightarrow> app_state \<Rightarrow> app_state" where
  "nextTrial st c_trialIndex c_results s =
     (if c_trialIndex + 1 \<ge> trialsPerSet st then onFinish st c_results s
      else s\<lparr>trialIndex := trialIndex s + 1, phase := PREP\<rparr>)"

text \<open>The data setup effect, which runs on mount and when \<open>trialIndex\<close> has changed.\<close>

definition dataSetup :: "(nat \<Rightarrow> rat) \<Rightarrow> settings \<Rightarrow> app_state \<Rightarrow> app_state" where
  "dataSetup random st s =
     (let num = generateStimulus (\<lambda>i. random (randomPos s + i)) (digits st) (numberRange st)
      in s\<lparr>currentStimulus := num, userInput := [], feedbackState := None, phase := PREP,
            randomPos := randomPos s + digits st\<rparr>)"

text \<open>
  The phase timer effect. When it runs again, the cleanup of its previous run has
  cleared the timer; with \<open>isPaused\<close> it returns at once and no timer is pending.
  The timeouts of FEEDBACK differ by \<open>settings.feedback\<close> in their delay only.
\<close>

definition phaseTimerEffect :: "app_state \<Rightarrow> app_state" where
  "phaseTimerEffect s =
     (if isPaused s then s\<lparr>pendingTimer := None\<rparr>
      else if phase s = ANSWER then s\<lparr>pendingTimer := None\<rparr>
      else s\<lparr>pendingTimer := Some \<lparr>t_phase = phase s, t_trialIndex = trialIndex s,
                t_currentStimulus = currentStimulus s, t_results = results s\<rparr>\<rparr>)"

text \<open>What the timeout does when it fires, by the phase the effect ran in.\<close>

definition timerCallback :: "settings \<Rightarrow> timer_closure \<Rightarrow> app_state \<Rightarrow> app_state" where
  "timerCallback st c s =
     (case t_phase c of
        PREP \<Rightarrow> s\<lparr>phase := SHOW\<rparr>
      | SHOW \<Rightarrow> s\<lparr>phase := HIDE\<rparr>
      | HIDE \<Rightarrow>
          (if answerMode st = NoneMode then
             nextTrial st (t_trialIndex c) (t_results c)
               (s\<lparr>results := results s @
                    [\<lparr>trial = t_trialIndex c + 1, stimulus = t_currentStimulus c,
                      input = ''(None)'', isCorrect = True, isVerbal = True\<rparr>]\<rparr>)
           else s\<lparr>phase := ANSWER\<rparr>)
      | ANSWER \<Rightarrow> s
      | FEEDBACK \<Rightarrow> nextTrial st (t_trialIndex c) (t_results c) s)"

text \<open>
  The two interaction handlers. They are closures of the latest render, so what they
  read is the state \<open>s\<close> itself.
\<close>

definition handleKeypad :: "settings \<Rightarrow> string \<Rightarrow> app_state \<Rightarrow> app_state" where
  "handleKeypad st key s =
     (if phase s \<noteq> ANSWER then s
      else if key = ''DELETE'' then s\<lparr>userInput := butlast (userInput s)\<rparr>
      else if key = ''CLEAR'' then s\<lparr>userInput := []\<rparr>
      else if length (userInput s) < digits st then s\<lparr>userInput := userInput s @ key\<rparr>
      else s)"

definition submitAnswer :: "settings \<Rightarrow> bool \<Rightarrow> app_state \<Rightarrow> app_state" where
  "submitAnswer st verbal s =
     (if phase s \<noteq> ANSWER then s
      else
        (let isCorrect = (if verbal then True else userInput s = currentStimulus s);
             s1 = s\<lparr>results := results s @
                    [\<lparr>trial = trialIndex s + 1, stimulus = currentStimulus s,
                      input = (if verbal then ''(Verbal)'' else userInput s),
                      isCorrect = isCorrect, isVerbal = verbal\<rparr>]\<rparr>
         in if feedback st
            then s1\<lparr>feedbackState :=
                      Some (if verbal then Verbal else if isCorrect then Correct else Incorrect),
                    phase := FEEDBACK\<rparr>
            else nextTrial st (trialIndex s) (results s) s1))"

subsection \<open>Rendering and events\<close>

text \<open>
  The dependencies of the phase timer effect that can change during a run
  (\<open>nextTrial\<close> changes with \<open>trialIndex\<close> and \<open>results\<close>).
\<close>

definition timerDeps :: "app_state \<Rightarrow> phase \<times> bool \<times> nat \<times> trial_result list \<times> string" where
  "timerDeps s = (phase s, isPaused s, trialIndex s, results s, currentStimulus s)"

text \<open>
  From the state \<open>new\<close> that a handler has produced out of the rendered state \<open>old\<close>
  to the next state at rest. When the parent has left the view RUN, \<open>RunSession\<close> is
  unmounted in the same batch of updates: what the handler has queued for the state of
  \<open>RunSession\<close> is dropped, so its fields stay as they were last rendered, the
  parent's fields (and the record of the calls of \<open>onFinish\<close>) are the new ones, and
  the cleanup clears the timer.
\<close>

definition afterRender :: "(nat \<Rightarrow> rat) \<Rightarrow> settings \<Rightarrow> app_state \<Rightarrow> app_state \<Rightarrow> app_state" where
  "afterRender random st old new =
     (if view new \<noteq> RUN
      then old\<lparr>view := view new, sessionResults := sessionResults new,
               currentHistory := currentHistory new, finishCalls := finishCalls new,
               pendingTimer := None\<rparr>
      else
        (let s1 = (if trialIndex new \<noteq> trialIndex old then dataSetup random st new else new)
         in if timerDeps s1 \<noteq> timerDeps old then phaseTimerEffect s1 else s1))"

text \<open>
  \<open>handleStartTraining\<close> followed by the mount of \<open>RunSession\<close>: the initial values
  of its \<open>useState\<close> cells, then both effects.
\<close>

definition handleStartTraining :: "(nat \<Rightarrow> rat) \<Rightarrow> settings \<Rightarrow> app_state \<Rightarrow> app_state" where
  "handleStartTraining random st a =
     phaseTimerEffect (dataSetup random st
       (a\<lparr>view := RUN, sessionResults := [], phase := PREP, trialIndex := 0,
          currentStimulus := [], userInput := [], results := [], isPaused := False,
          feedbackState := None, pendingTimer := None, finishCalls := []\<rparr>))"

text \<open>
  The events \<open>RunSession\<close> can receive, each with the condition under which the page
  offers it: the digit, DELETE and CLEAR keys and the confirm button are rendered in
  phase ANSWER with \<open>answerMode\<close> keypad, the button for a spoken answer in phase
  ANSWER with \<open>answerMode\<close> none, the pause button is disabled outside SHOW and HIDE,
  the resume button is rendered while paused.
\<close>

datatype event =
    TimerFires
  | DigitKey nat
  | DeleteKey
  | ClearKey
  | ConfirmButton
  | VerbalButton
  | PauseButton
  | ResumeButton
  | AbortButton

definition keypadShown :: "settings \<Rightarrow> app_state \<Rightarrow> bool" where
  "keypadShown st s = (phase s = ANSWER \<and> answerMode st = Keypad)"

definition handle :: "settings \<Rightarrow> event \<Rightarrow> app_state \<Rightarrow> app_state" where
  "handle st e s =
     (case e of
        TimerFires \<Rightarrow>
          (case pendingTimer s of
             None \<Rightarrow> s
           | Some c \<Rightarrow> timerCallback st c (s\<lparr>pendingTimer := None\<rparr>))
      | DigitKey d \<Rightarrow>
          (if keypadShown st s \<and> d < 10 then handleKeypad st (nat_toString d) s else s)
      | DeleteKey \<Rightarrow> (if keypadShown st s then handleKeypad st ''DELETE'' s else s)
      | ClearKey \<Rightarrow> (if keypadShown st s then handleKeypad st ''CLEAR'' s else s)
      | ConfirmButton \<Rightarrow> (if keypadShown st s then submitAnswer st False s else s)
      | VerbalButton \<Rightarrow>
          (if phase s = ANSWER \<and> answerMode st = NoneMode then submitAnswer st True s else s)
      | PauseButton \<Rightarrow>
          (if phase s = SHOW \<or> phase s = HIDE then s\<lparr>isPaused := \<not> isPaused s\<rparr> else s)
      | ResumeButton \<Rightarrow> (if isPaused s then s\<lparr>isPaused := False\<rparr> else s)
      | AbortButton \<Rightarrow> onAbort s)"

definition step :: "(nat \<Rightarrow> rat) \<Rightarrow> settings \<Rightarrow> event \<Rightarrow> app_state \<Rightarrow> app_state" where
  "step random st e s = (if view s \<noteq> RUN then s else afterRender random st s (handle st e s))"

definition run :: "(nat \<Rightarrow> rat) \<Rightarrow> settings \<Rightarrow> event list \<Rightarrow> app_state \<Rightarrow> app_state" where
  "run random st es s = foldl (\<lambda>s e. step random st e s) s es"

text \<open>The page as it is before any training: view HOME, nothing recorded.\<close>

definition initialApp :: app_state where
  "initialApp =
     \<lparr>view = HOME, sessionResults = [], currentHistory = [], phase = PREP, trialIndex = 0,
      currentStimulus = [], userInput = [], results = [], isPaused = False,
      feedbackState = None, pendingTimer = None, randomPos = 0, finishCalls = []\<rparr>"

definition validSettings :: "settings \<Rightarrow> bool" where
  "validSettings st = (1 \<le> digits st \<and> digits st \<le> 8 \<and> 1 \<le> trialsPerSet st \<and> trialsPerSet st \<le> 20)"

subsection \<open>The score\<close>

text \<open>
  \<open>Math.round((correct / total) * 100)\<close> for two array lengths. A division by zero
  does not throw in JavaScript: \<open>0 / 0\<close> is \<open>NaN\<close>, \<open>c / 0\<close> is \<open>Infinity\<close> for
  \<open>c > 0\<close>, and both pass through \<open>* 100\<close> and \<open>Math.round\<close> unchanged.
\<close>

definition score :: "nat \<Rightarrow> nat \<Rightarrow> js_number" where
  "score c t =
     (if t = 0 then (if c = 0 then NaN else Infinity)
      else Num (Math_round (js_mul (binary64 (of_nat c / of_nat t)) 100)))"

text \<open>\<open>ResultScreen\<close>: the score it computes and the text it renders for \<open>{score}\<close>.\<close>

definition ResultScreen_score :: "trial_result list \<Rightarrow> js_number" where
  "ResultScreen_score rs = (let correctCount = length (filter isCorrect rs) in score correctCount (length rs))"

definition ResultScreen_text :: "trial_result list \<Rightarrow> string" where
  "ResultScreen_text rs = js_toString (ResultScreen_score rs)"

text \<open>\<open>exportCSV\<close>: the last column, \<open>Score(%)\<close>, of the row of a history record.\<close>

definition exportCSV_score :: "history_record \<Rightarrow> js_number" where
  "exportCSV_score h = score (h_correct h) (h_total h)"

definition exportCSV_text :: "history_record \<Rightarrow> string" where
  "exportCSV_text h = js_toString (exportCSV_score h)"

text \<open>
  The \<open>Score(%)\<close> column of the file \<open>exportCSV\<close> writes; with an empty history
  it returns at once and writes nothing.
\<close>

definition exportCSV_scores :: "history_record list \<Rightarrow> string list option" where
  "exportCSV_scores hs = (if length hs = 0 then None else Some (map exportCSV_text hs))"

text \<open>
  The score of the specification, \<open>round(correct / total * 100)\<close>, in exact
  arithmetic; \<open>round\<close> rounds a tie upwards, as \<open>Math.round\<close> does.
\<close>

definition score_spec :: "nat \<Rightarrow> nat \<Rightarrow> int" where
  "score_spec c t = round (of_nat c / of_nat t * 100 :: rat)"

subsection \<open>The invariant of a run\<close>

text \<open>
  \<open>expectedTimer\<close> is the timeout the phase timer effect leaves pending in a state at
  rest, \<open>deliveredCount\<close> the number of results \<open>onFinish\<close> receives. \<open>run_inv\<close>
  holds after \<open>handleStartTraining\<close> and is kept by every event.
\<close>

definition expectedTimer :: "app_state \<Rightarrow> timer_closure option" where
  "expectedTimer s =
     (if isPaused s \<or> phase s = ANSWER then None
      else Some \<lparr>t_phase = phase s, t_trialIndex = trialIndex s,
                t_currentStimulus = currentStimulus s, t_results = results s\<rparr>)"

definition deliveredCount :: "settings \<Rightarrow> nat" where
  "deliveredCount st = (if answerMode st = Keypad \<and> feedback st then trialsPerSet st else trialsPerSet st - 1)"

definition mounted_inv :: "settings \<Rightarrow> app_state \<Rightarrow> bool" where
  "mounted_inv st s =
     (trialIndex s < trialsPerSet st \<and>
      length (results s) = (if phase s = FEEDBACK then trialIndex s + 1 else trialIndex s) \<and>
      pendingTimer s = expectedTimer s \<and>
      (isPaused s \<longrightarrow> phase s = SHOW \<or> phase s = HIDE) \<and>
      finishCalls s = [] \<and>
      sessionResults s = [] \<and>
      (phase s = FEEDBACK \<longrightarrow> feedback st \<and> answerMode st = Keypad))"

definition unmounted_inv :: "settings \<Rightarrow> app_state \<Rightarrow> bool" where
  "unmounted_inv st s =
     (pendingTimer s = None \<and>
      (finishCalls s = [] \<and> sessionResults s = [] \<or>
       finishCalls s = [sessionResults s] \<and> view s = RESULT \<and>
       sessionResults s = results s \<and> length (results s) = deliveredCount st))"

definition run_inv :: "settings \<Rightarrow> app_state \<Rightarrow> bool" where
  "run_inv st s =
     ((\<forall>i < length (results s). trial (results s ! i) = i + 1) \<and>
      length (results s) \<le> trialsPerSet st \<and>
      length (userInput s) \<le> digits st \<and>
      (answerMode st = NoneMode \<longrightarrow>
         phase s \<noteq> ANSWER \<and> (\<forall>r \<in> set (results s). isCorrect r \<and> isVerbal r)) \<and>
      (if view s = RUN then mounted_inv st s else unmounted_inv st s))"

subsection \<open>Example inputs\<close>

text \<open>
  The scenario of the specification: four digits, one trial, keypad, range 0-9. The
  random numbers \<open>7/16\<close>, \<open>13/16\<close>, \<open>1/4\<close>, \<open>1/8\<close> give the stimulus 4821.
\<close>

definition settings_4821 :: settings where
  "settings_4821 =
     \<lparr>digits = 4, trialsPerSet = 1, numberRange = Range_0_9, answerMode = Keypad,
      feedback = True, recording = False\<rparr>"

definition random_4821 :: "nat \<Rightarrow> rat" where
  "random_4821 i = (if i = 0 then 7 / 16 else if i = 1 then 13 / 16 else if i = 2 then 1 / 4 else 1 / 8)"

text \<open>The state in phase ANSWER with stimulus 4821 after the user has typed \<open>inp\<close>.\<close>

definition answering_4821 :: "string \<Rightarrow> app_state" where
  "answering_4821 inp =
     initialApp\<lparr>view := RUN, phase := ANSWER, currentStimulus := ''4821'', userInput := inp,
                randomPos := 4\<rparr>"

text \<open>A spoken-answer set of three trials; every random number is 0.\<close>

definition settings_none_3 :: settings where
  "settings_none_3 =
     \<lparr>digits = 4, trialsPerSet = 3, numberRange = Range_0_9, answerMode = NoneMode,
      feedback = True, recording = False\<rparr>"

definition random_zero :: "nat \<Rightarrow> rat" where
  "random_zero i = 0"


text \<open>
  States of the example runs: the three-trial spoken-answer set after its first
  timeout (phase SHOW), the same after a press of the pause button, and the one-trial
  keypad set (every random number 0, stimulus 0000) once phase ANSWER is reached.
\<close>

definition showing_none_3 :: app_state where
  "showing_none_3 =
     run random_zero settings_none_3 [TimerFires]
       (handleStartTraining random_zero settings_none_3 initialApp)"

definition paused_none_3 :: app_state where
  "paused_none_3 =
     run random_zero settings_none_3 [TimerFires, PauseButton]
       (handleStartTraining random_zero settings_none_3 initialApp)"

definition answer_reached :: app_state where
  "answer_reached =
     run random_zero settings_4821 [TimerFires, TimerFires, TimerFires]
       (handleStartTraining random_zero settings_4821 initialApp)"

text \<open>
  A one-trial spoken-answer set, and result lists for the score: three correct
  answers out of four, and 23 correct answers out of 40.
\<close>

definition settings_none_1 :: settings where
  "settings_none_1 =
     \<lparr>digits = 4, trialsPerSet = 1, numberRange = Range_0_9, answerMode = NoneMode,
      feedback = True, recording = True\<rparr>"

definition answered :: "bool \<Rightarrow> trial_result" where
  "answered ok =
     \<lparr>trial = 1, stimulus = ''4821'', input = (if ok then ''4821'' else ''4820''),
      isCorrect = ok, isVerbal = False\<rparr>"

definition results_3_of_4 :: "trial_result list" where
  "results_3_of_4 = [answered True, answered True, answered False, answered True]"

definition results_23_of_40 :: "trial_result list" where
  "results_23_of_40 = replicate 23 (answered True) @ replicate 17 (answered False)"

text \<open>
  The events of the one-trial keypad set in which the user types the stimulus 0000,
  confirms, and the feedback runs out.
\<close>

definition answer_0000 :: "event list" where
  "answer_0000 =
     [TimerFires, TimerFires, TimerFires, DigitKey 0, DigitKey 0, DigitKey 0, DigitKey 0,
      ConfirmButton, TimerFires]"

section \<open>Properties\<close>

subsection \<open>Decimal digits\<close>

lemma length_nat_toString_digit: "d < 10 \<Longrightarrow> length (nat_toString d) = 1"
  by simp

lemma digit_chars: "map digit_char [0, 1, 2, 3, 4, 5, 6, 7, 8, 9] = ''0123456789''"
  unfolding digit_char_def by code_simp

lemma digit_char_nth: "d < 10 \<Longrightarrow> digit_char d = ''0123456789'' ! d"
proof -
  assume "d < 10"
  then have "d \<in> {0, 1, 2, 3, 4, 5, 6, 7, 8, 9}" by auto
  then show ?thesis using digit_chars by auto
qed

lemma nat_toString_digit: "d < 10 \<Longrightarrow> nat_toString d = [''0123456789'' ! d]"
  by (simp add: digit_char_nth)

declare nat_toString.simps [simp del]

declare generateStimulus_loop.simps [simp del]

subsection \<open>Rounding to binary64\<close>

text \<open>
  \<open>binade\<close> finds the exponent of a positive rational, so the rounding error of
  \<open>binary64\<close> is at most half the spacing \<open>ulp\<close>; and \<open>binary64\<close> can be
  evaluated on numerals by rewriting.
\<close>

lemma bitlen_numeral_Bit0: "bitlen (numeral (Num.Bit0 n)) = bitlen (numeral n) + 1"
  by (subst compute_bitlen) simp
lemma bitlen_numeral_Bit1: "bitlen (numeral (Num.Bit1 n)) = bitlen (numeral n) + 1"
  by (subst compute_bitlen) simp
lemma bitlen_1: "bitlen 1 = 1"
  by (subst compute_bitlen) simp
lemma bitlen_numeral_One: "bitlen (numeral Num.One) = 1"
  by (subst compute_bitlen) simp
lemma floor_rat_numeral_div: "\<lfloor>numeral a / numeral b :: rat\<rfloor> = numeral a div numeral b"
  using floor_divide_of_int_eq [of "numeral a" "numeral b", where ?'a = rat] by simp
lemma ceiling_rat_numeral_div: "\<lceil>numeral a / numeral b :: rat\<rceil> = - ((- numeral a) div numeral b)"
  using floor_divide_of_int_eq [of "- numeral a" "numeral b", where ?'a = rat] by (simp add: ceiling_def)

lemma two_powi_nonneg: "0 \<le> e \<Longrightarrow> (2::rat) powi e = 2 ^ nat e"
  by (simp add: power_int_def)

lemma two_powi_neg: "0 \<le> b \<Longrightarrow> (2::rat) powi (- b) = 1 / 2 ^ nat b"
  by (simp add: power_int_minus two_powi_nonneg field_simps)

lemma binade_bounds_ge1:
  assumes "1 \<le> q"
  shows "2 powi binade q \<le> q \<and> q < 2 powi (binade q + 1)"
proof -
  define n where "n = \<lfloor>q\<rfloor>"
  have n1: "1 \<le> n" using assms by (simp add: n_def le_floor_iff)
  then have n0: "0 < n" by simp
  have b1: "1 \<le> bitlen n" using n0 by (simp add: bitlen_alt_def)
  have lo: "2 ^ nat (bitlen n - 1) \<le> n" and hi: "n < 2 ^ nat (bitlen n)"
    using bitlen_bounds [OF n0] by simp_all
  have e: "binade q = bitlen n - 1" using assms by (simp add: binade_def n_def)
  have "(2::rat) powi (bitlen n - 1) = of_int (2 ^ nat (bitlen n - 1))"
    using b1 by (simp add: two_powi_nonneg)
  also have "\<dots> \<le> of_int n" using lo by (simp only: of_int_le_iff)
  also have "\<dots> \<le> q" by (simp add: n_def)
  finally have A: "2 powi binade q \<le> q" by (simp add: e)
  have "n + 1 \<le> 2 ^ nat (bitlen n)" using hi by simp
  then have "(of_int (n + 1) :: rat) \<le> of_int (2 ^ nat (bitlen n))" by (simp only: of_int_le_iff)
  moreover have "q < of_int (n + 1)" using floor_correct [of q] by (simp add: n_def)
  ultimately have "q < of_int (2 ^ nat (bitlen n))" by simp
  also have "\<dots> = 2 powi (bitlen n)" using b1 by (simp add: two_powi_nonneg)
  finally have B: "q < 2 powi (binade q + 1)" by (simp add: e)
  show ?thesis using A B by simp
qed

lemma binade_bounds_lt1:
  assumes "0 < q" "q < 1"
  shows "2 powi binade q \<le> q \<and> q < 2 powi (binade q + 1)"
proof -
  define m where "m = \<lceil>1 / q\<rceil> - 1"
  have x1: "1 < 1 / q" using assms by simp
  then have "1 < \<lceil>1 / q\<rceil>" by (simp add: less_ceiling_iff)
  then have m0: "0 < m" by (simp add: m_def)
  have b1: "1 \<le> bitlen m" using m0 by (simp add: bitlen_alt_def)
  have lo: "2 ^ nat (bitlen m - 1) \<le> m" and hi: "m < 2 ^ nat (bitlen m)"
    using bitlen_bounds [OF m0] by simp_all
  have e: "binade q = - bitlen m" using assms by (simp add: binade_def m_def)
  have "1 / q \<le> of_int (m + 1)" by (simp add: m_def)
  also have "(of_int (m + 1) :: rat) \<le> of_int (2 ^ nat (bitlen m))"
    using hi by (simp only: of_int_le_iff zle_add1_eq_le)
  finally have "1 / q \<le> 2 ^ nat (bitlen m)" by simp
  then have "1 / 2 ^ nat (bitlen m) \<le> q" using assms(1) by (simp add: field_simps)
  then have A: "2 powi binade q \<le> q" using b1 by (simp add: e two_powi_neg)
  have "(of_int (2 ^ nat (bitlen m - 1)) :: rat) \<le> of_int m"
    using lo by (simp only: of_int_le_iff)
  also have "of_int m < 1 / q" using ceiling_correct [of "1 / q"] by (simp add: m_def)
  finally have "2 ^ nat (bitlen m - 1) < 1 / q" by simp
  then have "q < 1 / 2 ^ nat (bitlen m - 1)" using assms(1) by (simp add: field_simps)
  moreover have "(2::rat) powi (- (bitlen m - 1)) = 1 / 2 ^ nat (bitlen m - 1)"
    using b1 by (intro two_powi_neg) simp
  moreover have "binade q + 1 = - (bitlen m - 1)" by (simp add: e)
  ultimately have B: "q < 2 powi (binade q + 1)" by (simp only:)
  show ?thesis using A B by simp
qed

lemma binade_bounds: "0 < q \<Longrightarrow> 2 powi binade q \<le> q \<and> q < 2 powi (binade q + 1)"
  using binade_bounds_ge1 [of q] binade_bounds_lt1 [of q] by (cases "1 \<le> q") auto

lemma binade_unique:
  assumes "0 < q" "2 powi e \<le> q" "q < 2 powi (e + 1)"
  shows "binade q = e"
proof -
  have b: "2 powi binade q \<le> q" "q < 2 powi (binade q + 1)"
    using binade_bounds [OF assms(1)] by simp_all
  have "\<not> binade q + 1 \<le> e"
  proof
    assume "binade q + 1 \<le> e"
    then have "(2::rat) powi (binade q + 1) \<le> 2 powi e" by (rule power_int_increasing) simp
    then show False using assms(2) b(2) by simp
  qed
  moreover have "\<not> e + 1 \<le> binade q"
  proof
    assume "e + 1 \<le> binade q"
    then have "(2::rat) powi (e + 1) \<le> 2 powi binade q" by (rule power_int_increasing) simp
    then show False using assms(3) b(1) by simp
  qed
  ultimately show ?thesis by simp
qed

lemma round_ties_even_error: "\<bar>of_int (round_ties_even m) - m\<bar> \<le> 1 / 2"
proof -
  have "of_int \<lfloor>m\<rfloor> \<le> m" "m < of_int \<lfloor>m\<rfloor> + 1"
    using floor_correct [of m] by simp_all
  then show ?thesis by (auto simp: round_ties_even_def Let_def)
qed

lemma round_ties_even_of_int: "round_ties_even (of_int k) = k"
  by (simp add: round_ties_even_def)

lemma round_ties_even_le:
  assumes "m < of_int k + 1 / 2"
  shows "round_ties_even m \<le> k"
proof -
  have "of_int (round_ties_even m) \<le> m + 1 / 2"
    using round_ties_even_error [of m] by linarith
  then have "(of_int (round_ties_even m) :: rat) < of_int (k + 1)" using assms by simp
  then have "round_ties_even m < k + 1" by (simp only: of_int_less_iff)
  then show ?thesis by simp
qed

lemma round_ties_even_nonneg:
  assumes "0 \<le> m"
  shows "0 \<le> round_ties_even m"
proof -
  have "m - 1 / 2 \<le> of_int (round_ties_even m)"
    using round_ties_even_error [of m] by linarith
  then have "(of_int (- 1) :: rat) < of_int (round_ties_even m)" using assms by simp
  then have "- 1 < round_ties_even m" by (simp only: of_int_less_iff)
  then show ?thesis by simp
qed

lemma ulp_pos: "0 < ulp q"
  by (simp add: ulp_def)

lemma binary64_pos_eq:
  "0 < q \<Longrightarrow> binary64 q = of_int (round_ties_even (q / ulp q)) * ulp q"
  by (simp add: binary64_def ulp_def Let_def)

lemma binary64_error:
  assumes "0 < q"
  shows "\<bar>binary64 q - q\<bar> \<le> ulp q / 2"
proof -
  have "binary64 q - q = (of_int (round_ties_even (q / ulp q)) - q / ulp q) * ulp q"
    using ulp_pos [of q] by (simp add: binary64_pos_eq [OF assms] field_simps)
  then have "\<bar>binary64 q - q\<bar> = \<bar>of_int (round_ties_even (q / ulp q)) - q / ulp q\<bar> * ulp q"
    using ulp_pos [of q] by (simp add: abs_mult)
  also have "\<dots> \<le> 1 / 2 * ulp q"
    using round_ties_even_error [of "q / ulp q"] ulp_pos [of q]
    by (intro mult_right_mono) simp_all
  finally show ?thesis by simp
qed

lemma binary64_nonneg:
  assumes "0 \<le> q"
  shows "0 \<le> binary64 q"
proof (cases "q = 0")
  case True
  then show ?thesis by (simp add: binary64_def)
next
  case False
  then have q: "0 < q" using assms by simp
  have "0 \<le> q / ulp q" using q ulp_pos [of q] by simp
  then have "0 \<le> round_ties_even (q / ulp q)" by (rule round_ties_even_nonneg)
  then show ?thesis using ulp_pos [of q] by (simp add: binary64_pos_eq [OF q])
qed

lemma ulp_eq:
  assumes "0 < q" "2 powi e \<le> q" "q < 2 powi (e + 1)" "- 1022 \<le> e"
  shows "ulp q = 2 powi (e - 52)"
proof -
  have "binade q = e" using assms(1-3) by (rule binade_unique)
  then show ?thesis using assms(4) by (simp add: ulp_def)
qed

lemma ulp_le:
  assumes "0 < q" "q < 2 powi k" "- 1021 \<le> k"
  shows "ulp q \<le> 2 powi (k - 53)"
proof -
  have "\<not> k \<le> binade q"
  proof
    assume "k \<le> binade q"
    then have "(2::rat) powi k \<le> 2 powi binade q" by (rule power_int_increasing) simp
    then show False using binade_bounds [OF assms(1)] assms(2) by simp
  qed
  then have "max (binade q) (- 1022) - 52 \<le> k - 53" using assms(3) by simp
  then show ?thesis unfolding ulp_def by (rule power_int_increasing) simp
qed

lemma binary64_below_one:
  assumes "is_binary64 x" "0 \<le> x" "x < 1"
  shows "x \<le> 1 - 1 / 2 ^ 53"
proof (cases "x < 1 / 2")
  case True
  then show ?thesis by simp
next
  case False
  then have x: "0 < x" "2 powi (- 1) \<le> x" "x < 2 powi (- 1 + 1)"
    using assms(3) by (simp_all add: power_int_minus)
  have u: "ulp x = 2 powi (- 53)" using ulp_eq [OF x] by simp
  then have u': "ulp x = 1 / 2 ^ 53" by (simp add: power_int_minus field_simps)
  define k where "k = round_ties_even (x / ulp x)"
  have "x = of_int k * ulp x"
    using assms(1) binary64_pos_eq [OF x(1)] by (simp add: is_binary64_def k_def)
  then have xk: "x = of_int k / 2 ^ 53" by (simp add: u')
  then have "(of_int k :: rat) < of_int (2 ^ 53)" using assms(3) by simp
  then have "k < 2 ^ 53" by (simp only: of_int_less_iff)
  then have "k \<le> 2 ^ 53 - 1" by simp
  then have "(of_int k :: rat) \<le> of_int (2 ^ 53 - 1)" by (simp only: of_int_le_iff)
  then show ?thesis by (simp add: xk field_simps)
qed

lemma binary64_product_below:
  assumes "0 \<le> q" "q \<le> n * (1 - 1 / 2 ^ 53)" "n = 9 \<or> n = 10"
  shows "binary64 q < n"
proof (cases "q < 8")
  case True
  show ?thesis
  proof (cases "q = 0")
    case True
    then show ?thesis using assms(3) by (auto simp: binary64_def)
  next
    case False
    then have q: "0 < q" using assms(1) by simp
    have "q < 2 powi 3" using True by simp
    then have "ulp q \<le> 2 powi (3 - 53)" using q by (intro ulp_le) simp_all
    then have "ulp q \<le> 1" by (simp add: power_int_minus field_simps)
    then have "binary64 q \<le> q + 1 / 2" using binary64_error [OF q] by linarith
    then show ?thesis using True assms(3) by auto
  qed
next
  case False
  then have q: "0 < q" "2 powi 3 \<le> q" by simp_all
  have "q < 16" using assms(2,3) by auto
  then have "q < 2 powi (3 + 1)" by simp
  then have "ulp q = 2 powi (3 - 52)" using q by (intro ulp_eq) simp_all
  then have u: "ulp q = 1 / 2 ^ 49" by (simp add: power_int_minus field_simps)
  define m where "m = q / ulp q"
  have "m = q * 2 ^ 49" by (simp add: m_def u)
  then have "m \<le> n * 2 ^ 49 - n / 16" using assms(2) by (simp add: field_simps)
  then have "m < of_int (\<lfloor>n\<rfloor> * 2 ^ 49 - 1) + 1 / 2" using assms(3) by auto
  then have "round_ties_even m \<le> \<lfloor>n\<rfloor> * 2 ^ 49 - 1" by (rule round_ties_even_le)
  then have "(of_int (round_ties_even m) :: rat) \<le> of_int (\<lfloor>n\<rfloor> * 2 ^ 49 - 1)"
    by (simp only: of_int_le_iff)
  moreover have "binary64 q = of_int (round_ties_even m) / 2 ^ 49"
    by (simp add: binary64_pos_eq [OF q(1)] u m_def)
  ultimately have "binary64 q \<le> of_int (\<lfloor>n\<rfloor> * 2 ^ 49 - 1) / 2 ^ 49"
    by (simp add: field_simps)
  then show ?thesis using assms(3) by auto
qed

lemmas bitlen_eval = bitlen_numeral_Bit0 bitlen_numeral_Bit1 bitlen_1 bitlen_numeral_One

lemmas binary64_eval = binary64_def round_ties_even_def Let_def binade_def bitlen_eval
  floor_rat_numeral_div ceiling_rat_numeral_div

lemma random_4821_ok: "Math_random_result (random_4821 i)"
  by (simp add: random_4821_def Math_random_result_def is_binary64_def binary64_eval)

lemma generateStimulus_4821: "generateStimulus random_4821 4 Range_0_9 = ''4821''"
  by (simp add: generateStimulus_def generateStimulus_loop.simps random_4821_def js_mul_def
      maxVal_def Math_floor_def int_toString_def nat_toString_digit binary64_eval)

lemma binary64_0: "binary64 0 = 0"
  by (simp add: binary64_def)

subsection \<open>The digits of a stimulus\<close>

lemma random_digit:
  assumes "Math_random_result x" and "minVal \<le> 1"
  shows "\<exists>k. minVal \<le> k \<and> k \<le> 9 \<and>
           int_toString (Math_floor (js_mul x (of_nat (maxVal - minVal + 1))) + int minVal)
             = [''0123456789'' ! k]"
proof -
  define n :: rat where "n = of_nat (maxVal - minVal + 1)"
  have n: "n = 9 \<or> n = 10" "n = 10 - of_nat minVal"
    using assms(2) by (auto simp: n_def maxVal_def le_Suc_eq)
  have x: "0 \<le> x" "x \<le> 1 - 1 / 2 ^ 53"
    using assms(1) binary64_below_one [of x] by (simp_all add: Math_random_result_def)
  have q0: "0 \<le> x * n" using x(1) n(1) by auto
  have "x * n \<le> (1 - 1 / 2 ^ 53) * n" using x(2) n(1) by (intro mult_right_mono) auto
  then have q1: "x * n \<le> n * (1 - 1 / 2 ^ 53)" by (simp add: mult.commute)
  have lt: "binary64 (x * n) < n" using q0 q1 n(1) by (rule binary64_product_below)
  have ge: "0 \<le> binary64 (x * n)" using q0 by (rule binary64_nonneg)
  define f where "f = \<lfloor>binary64 (x * n)\<rfloor>"
  have f0: "0 \<le> f" using ge by (simp add: f_def)
  have "f < 10 - int minVal"
  proof -
    have "binary64 (x * n) < of_int (10 - int minVal)" using lt n(2) by simp
    then show ?thesis unfolding f_def by (simp only: floor_less_iff)
  qed
  then have f1: "f + int minVal \<le> 9" by simp
  define k where "k = nat (f + int minVal)"
  have k: "minVal \<le> k" "k \<le> 9" "int k = f + int minVal" using f0 f1 by (simp_all add: k_def)
  have "int_toString (f + int minVal) = [''0123456789'' ! k]"
    using f0 k(2) by (simp add: int_toString_def nat_toString_digit k_def)
  then show ?thesis using k(1,2) by (auto simp: Math_floor_def js_mul_def f_def n_def)
qed

lemma digit_allowed:
  assumes "minVal \<le> k" "k \<le> 9"
  shows "''0123456789'' ! k \<in> set (if minVal = 0 then ''0123456789'' else ''123456789'')"
proof -
  have "k \<in> {0, 1, 2, 3, 4, 5, 6, 7, 8, 9}" using assms(2) by auto
  then show ?thesis using assms(1) by auto
qed

lemma generateStimulus_loop_digits:
  assumes "\<forall>j. i \<le> j \<and> j < count \<longrightarrow> Math_random_result (random j)" and "minVal \<le> 1"
  shows "length (generateStimulus_loop random count minVal i numStr) = length numStr + (count - i) \<and>
         set (generateStimulus_loop random count minVal i numStr) \<subseteq>
           set numStr \<union> set (if minVal = 0 then ''0123456789'' else ''123456789'')"
  using assms
proof (induction random count minVal i numStr rule: generateStimulus_loop.induct)
  case (1 random count minVal i numStr)
  show ?case
  proof (cases "i < count")
    case False
    then show ?thesis by (simp add: generateStimulus_loop.simps)
  next
    case True
    define digit where
      "digit = Math_floor (js_mul (random i) (of_nat (maxVal - minVal + 1))) + int minVal"
    have "Math_random_result (random i)" using "1.prems"(1) True by simp
    then obtain k where k: "minVal \<le> k" "k \<le> 9" "int_toString digit = [''0123456789'' ! k]"
      using random_digit [of "random i" minVal] "1.prems"(2) by (auto simp: digit_def)
    have ih: "length (generateStimulus_loop random count minVal (i + 1) (numStr @ int_toString digit))
        = length (numStr @ int_toString digit) + (count - (i + 1)) \<and>
      set (generateStimulus_loop random count minVal (i + 1) (numStr @ int_toString digit)) \<subseteq>
        set (numStr @ int_toString digit) \<union>
        set (if minVal = 0 then ''0123456789'' else ''123456789'')"
      using "1.IH" [OF True digit_def] "1.prems" by simp
    have unf: "generateStimulus_loop random count minVal i numStr =
        generateStimulus_loop random count minVal (i + 1) (numStr @ int_toString digit)"
      using True by (subst generateStimulus_loop.simps) (simp add: digit_def Let_def)
    have "''0123456789'' ! k \<in> set (if minVal = 0 then ''0123456789'' else ''123456789'')"
      using k(1,2) by (rule digit_allowed)
    then show ?thesis using ih True unfolding unf k(3) by auto
  qed
qed

subsection \<open>The score in binary64 and in exact arithmetic\<close>

text \<open>
  \<open>correct / total * 100\<close> is rounded twice, each time with a relative error of at
  most \<open>2\<^sup>-\<^sup>5\<^sup>3\<close>. Up to 39 results the exact value is either a tie, and then
  \<open>correct / total\<close> is a multiple of \<open>1/8\<close> and nothing is rounded, or at least
  \<open>1/78\<close> away from one.
\<close>

lemma cop25: "s = 1 \<or> s = 2 \<or> s = 3 \<or> s = 4 \<Longrightarrow> coprime (25::nat) s"
  by (auto simp: coprime_iff_gcd_eq_1 gcd_non_0_nat)

lemma cop8: "odd (n::nat) \<Longrightarrow> coprime 8 n"
  using coprime_power_left_iff [of 2 3 n] by (simp add: coprime_left_2_iff_odd)

lemma ties_are_eighths:
  fixes c t :: nat
  assumes "0 < t" "t \<le> 39" "c \<le> t" "(200 * c + t) mod (2 * t) = 0"
  shows "8 * c = t \<or> 8 * c = 3 * t \<or> 8 * c = 5 * t \<or> 8 * c = 7 * t"
proof -
  have "2 * t dvd 200 * c + t" using assms(4) by (simp add: mod_eq_0_iff_dvd)
  then obtain K where K: "200 * c + t = 2 * t * K" by (elim dvdE)
  have K0: "0 < K" using K assms(1) by (cases K) simp_all
  define w where "w = 2 * K - 1"
  have w: "odd w" "2 * K = w + 1" using K0 by (simp_all add: w_def)
  have "t * (w + 1) = 200 * c + t" using K w(2) by (metis mult.assoc mult.commute)
  then have to: "t * w = 200 * c" by simp
  then have "8 dvd t * w" by simp
  then have "8 dvd t" using cop8 [OF w(1)] by (simp add: coprime_dvd_mult_left_iff)
  then obtain s where s: "t = 8 * s" by (elim dvdE)
  have s14: "s = 1 \<or> s = 2 \<or> s = 3 \<or> s = 4" using assms(1,2) s by arith
  have so: "s * w = 25 * c" using to s by simp
  then have "25 dvd s * w" by simp
  then have "25 dvd w" using cop25 [OF s14] by (simp add: coprime_dvd_mult_right_iff)
  then obtain j where j: "w = 25 * j" by (elim dvdE)
  have c: "c = s * j" using so j by simp
  have "odd j" using w(1) j by simp
  moreover have "j \<le> 8" using assms(3) c s s14 by auto
  ultimately have "j = 1 \<or> j = 3 \<or> j = 5 \<or> j = 7"
    by (auto elim!: oddE)
  then show ?thesis using c s by auto
qed


lemma score_eighths:
  "Math_round (js_mul (binary64 (1 / 8)) 100) = round (1 / 8 * 100 :: rat) \<and>
   Math_round (js_mul (binary64 (3 / 8)) 100) = round (3 / 8 * 100 :: rat) \<and>
   Math_round (js_mul (binary64 (5 / 8)) 100) = round (5 / 8 * 100 :: rat) \<and>
   Math_round (js_mul (binary64 (7 / 8)) 100) = round (7 / 8 * 100 :: rat)"
  by (simp add: js_mul_def Math_round_def round_def binary64_eval)

lemma eighth_quotient:
  fixes c t :: nat
  assumes "0 < t" "8 * c = j * t"
  shows "(of_nat c / of_nat t :: rat) = of_nat j / 8"
proof -
  have "(of_nat (8 * c) :: rat) = of_nat (j * t)" by (simp only: assms(2))
  then show ?thesis using assms(1) by (simp add: field_simps)
qed

lemma score_near:
  fixes x :: rat
  assumes "1 / 39 \<le> x" "x \<le> 1"
  shows "\<bar>js_mul (binary64 x) 100 - x * 100\<bar> < 1 / 78"
proof -
  have x0: "0 < x" using assms(1) by simp
  have "x < 2 powi 1" using assms(2) by simp
  then have "ulp x \<le> 2 powi (1 - 53)" using x0 by (intro ulp_le) simp_all
  then have "ulp x \<le> 1 / 4503599627370496" by (simp add: power_int_minus field_simps)
  then have "\<bar>binary64 x - x\<bar> \<le> 1 / 9007199254740992"
    using binary64_error [OF x0] by linarith
  then have y: "binary64 x \<le> x + 1 / 9007199254740992" "x - 1 / 9007199254740992 \<le> binary64 x"
    by linarith+
  define q where "q = binary64 x * 100"
  have q0: "0 < q" using y(2) assms(1) unfolding q_def by linarith
  have "q < 128" using y(1) assms(2) unfolding q_def by linarith
  then have "q < 2 powi 7" by simp
  then have "ulp q \<le> 2 powi (7 - 53)" using q0 by (intro ulp_le) simp_all
  then have "ulp q \<le> 1 / 70368744177664" by (simp add: power_int_minus field_simps)
  then have "\<bar>binary64 q - q\<bar> \<le> 1 / 140737488355328"
    using binary64_error [OF q0] by linarith
  then have "\<bar>binary64 q - x * 100\<bar> < 1 / 78"
    using y unfolding q_def by linarith
  then show ?thesis by (simp add: js_mul_def q_def)
qed

lemma score_zero: "0 < t \<Longrightarrow> score 0 t = Num (round (of_nat 0 / of_nat t * 100 :: rat))"
  by (simp add: score_def js_mul_def Math_round_def round_def binary64_0)

lemma score_exact:
  fixes c t :: nat
  assumes "0 < t" "t \<le> 39" "c \<le> t"
  shows "score c t = Num (round (of_nat c / of_nat t * 100 :: rat))"
proof (cases "c = 0")
  case True
  then show ?thesis using assms(1) score_zero by simp
next
  case False
  define x :: rat where "x = of_nat c / of_nat t"
  have sc: "score c t = Num (Math_round (js_mul (binary64 x) 100))"
    using assms(1) by (simp add: score_def x_def)
  show ?thesis
  proof (cases "(200 * c + t) mod (2 * t) = 0")
    case True
    then have "8 * c = 1 * t \<or> 8 * c = 3 * t \<or> 8 * c = 5 * t \<or> 8 * c = 7 * t"
      using ties_are_eighths [OF assms] by simp
    then have "x = of_nat 1 / 8 \<or> x = of_nat 3 / 8 \<or> x = of_nat 5 / 8 \<or> x = of_nat 7 / 8"
      unfolding x_def using eighth_quotient [OF assms(1), of c] by blast
    then have "x = 1 / 8 \<or> x = 3 / 8 \<or> x = 5 / 8 \<or> x = 7 / 8" by simp
    then have "Math_round (js_mul (binary64 x) 100) = round (x * 100)"
      by (elim disjE) (simp_all only: score_eighths)
    then show ?thesis by (simp add: sc x_def)
  next
    case nontie: False
    define K where "K = (200 * c + t) div (2 * t)"
    define r where "r = (200 * c + t) mod (2 * t)"
    have r: "1 \<le> r" "r + 1 \<le> 2 * t" using nontie assms(1) by (simp_all add: r_def Suc_le_eq)
    have "200 * c + t = K * (2 * t) + r" unfolding K_def r_def by (rule div_mult_mod_eq [symmetric])
    then have "(of_nat (200 * c + t) :: rat) = of_nat (K * (2 * t) + r)" by (simp only:)
    then have W: "x * 100 + 1 / 2 = of_nat K + of_nat r / (2 * of_nat t)"
      using assms(1) by (simp add: x_def field_simps)
    have t0: "(0::rat) < of_nat t" using assms(1) by simp
    have "(of_nat t :: rat) \<le> of_nat 39" using assms(2) by (simp only: of_nat_le_iff)
    then have t39: "(of_nat t :: rat) \<le> 39" by simp
    have "(of_nat 1 :: rat) \<le> of_nat r" using r(1) by (simp only: of_nat_le_iff)
    then have r1: "(1::rat) \<le> of_nat r" by simp
    have "(of_nat (r + 1) :: rat) \<le> of_nat (2 * t)" using r(2) by (simp only: of_nat_le_iff)
    then have r2: "(of_nat r :: rat) + 1 \<le> 2 * of_nat t" by simp
    define f :: rat where "f = of_nat r / (2 * of_nat t)"
    have "1 \<le> 78 * f"
    proof -
      have "2 * of_nat t \<le> 78 * (of_nat r :: rat)" using t39 r1 by linarith
      then show ?thesis using t0 by (simp add: f_def field_simps)
    qed
    moreover have "78 * f \<le> 77"
    proof -
      have "78 * (of_nat r :: rat) \<le> 77 * (2 * of_nat t)" using t39 r2 by linarith
      then show ?thesis using t0 by (simp add: f_def field_simps)
    qed
    ultimately have f: "1 / 78 \<le> f" "f \<le> 1 - 1 / 78" by linarith+
    have "1 \<le> c" using False by simp
    then have c1: "(of_nat 1 :: rat) \<le> of_nat c" by (simp only: of_nat_le_iff)
    have "(of_nat c :: rat) \<le> of_nat t" using assms(3) by (simp only: of_nat_le_iff)
    then have x1: "x \<le> 1" using t0 by (simp add: x_def)
    have "of_nat t \<le> 39 * (of_nat c :: rat)" using t39 c1 by simp
    then have x39: "1 / 39 \<le> x" using t0 by (simp add: x_def field_simps)
    define z where "z = js_mul (binary64 x) 100"
    have near: "\<bar>z - x * 100\<bar> < 1 / 78" unfolding z_def using x39 x1 by (rule score_near)
    define w where "w = x * 100"
    have near': "z < w + 1 / 78" "w - 1 / 78 < z" using near unfolding w_def by linarith+
    have Wf: "w + 1 / 2 = of_nat K + f" using W by (simp add: f_def w_def)
    have "\<lfloor>z + 1 / 2\<rfloor> = int K"
    proof (rule floor_unique)
      have "(of_nat K :: rat) \<le> z + 1 / 2" using near' Wf f by linarith
      then show "of_int (int K) \<le> z + 1 / 2" by simp
      have "z + 1 / 2 < (of_nat K :: rat) + 1" using near' Wf f by linarith
      then show "z + 1 / 2 < of_int (int K) + 1" by simp
    qed
    moreover have "\<lfloor>w + 1 / 2\<rfloor> = int K"
    proof (rule floor_unique)
      have "(of_nat K :: rat) \<le> w + 1 / 2" using Wf f by linarith
      then show "of_int (int K) \<le> w + 1 / 2" by simp
      have "w + 1 / 2 < (of_nat K :: rat) + 1" using Wf f by linarith
      then show "w + 1 / 2 < of_int (int K) + 1" by simp
    qed
    ultimately show ?thesis by (simp add: sc Math_round_def round_def z_def x_def w_def)
  qed
qed

text \<open>The two example result lists.\<close>

lemma results_23_of_40_counts:
  "length results_23_of_40 = 40 \<and> length (filter isCorrect results_23_of_40) = 23"
  by (simp add: results_23_of_40_def answered_def)

lemma score_23_40: "score 23 40 = Num 57"
  by (simp add: score_def js_mul_def Math_round_def binary64_eval)

lemma score_spec_23_40: "score_spec 23 40 = 58"
  by (simp add: score_spec_def round_def floor_rat_numeral_div)

lemma results_3_of_4_counts:
  "length results_3_of_4 = 4 \<and> length (filter isCorrect results_3_of_4) = 3 \<and>
   map isCorrect results_3_of_4 = [True, True, False, True] \<and> results_3_of_4 \<noteq> []"
  by (simp add: results_3_of_4_def answered_def)

lemma score_spec_3_4: "score_spec 3 4 = 75"
  by (simp add: score_spec_def round_def floor_rat_numeral_div)

subsection \<open>Every event keeps the invariant\<close>

lemma phaseTimerEffect_expected: "pendingTimer (phaseTimerEffect s) = expectedTimer s"
  by (simp add: phaseTimerEffect_def expectedTimer_def)

lemma run_inv_start:
  "1 \<le> trialsPerSet st \<Longrightarrow> run_inv st (handleStartTraining random st a)"
  by (simp add: run_inv_def mounted_inv_def handleStartTraining_def phaseTimerEffect_def
      dataSetup_def expectedTimer_def Let_def)

lemmas handler_defs = handle_def keypadShown_def handleKeypad_def submitAnswer_def timerCallback_def
  nextTrial_def onFinish_def onAbort_def

lemmas inv_defs = run_inv_def mounted_inv_def unmounted_inv_def expectedTimer_def deliveredCount_def

lemma nth_append_trial:
  "\<forall>i<length xs. trial (xs ! i) = Suc i \<Longrightarrow> trial x = Suc (length xs) \<Longrightarrow>
   i < Suc (length xs) \<Longrightarrow> trial ((xs @ [x]) ! i) = Suc i"
  by (cases "i < length xs") (auto simp: nth_append less_Suc_eq)

lemma run_inv_step_timer:
  assumes "run_inv st s" "view s = RUN"
  shows "run_inv st (afterRender random st s (handle st TimerFires s))"
  using assms
  by (cases "phase s")
    (auto simp: inv_defs handler_defs afterRender_def timerDeps_def dataSetup_def
      phaseTimerEffect_def Let_def nth_append less_Suc_eq split: if_splits option.splits)

lemma run_inv_step_abort:
  assumes "run_inv st s" "view s = RUN"
  shows "run_inv st (afterRender random st s (handle st AbortButton s))"
  using assms
  by (simp add: inv_defs handle_def onAbort_def afterRender_def)

lemma run_inv_step_resume:
  assumes "run_inv st s" "view s = RUN"
  shows "run_inv st (afterRender random st s (handle st ResumeButton s))"
  using assms
  by (auto simp: inv_defs handle_def afterRender_def timerDeps_def
      phaseTimerEffect_def Let_def split: if_splits)

lemma run_inv_step_pause:
  assumes "run_inv st s" "view s = RUN"
  shows "run_inv st (afterRender random st s (handle st PauseButton s))"
  using assms
  by (auto simp: inv_defs handle_def afterRender_def timerDeps_def
      phaseTimerEffect_def Let_def split: if_splits)

lemma run_inv_step_digit:
  assumes "run_inv st s" "view s = RUN"
  shows "run_inv st (afterRender random st s (handle st (DigitKey d) s))"
  using assms
  by (auto simp: inv_defs handle_def keypadShown_def handleKeypad_def afterRender_def
      timerDeps_def Let_def length_nat_toString_digit split: if_splits)

lemma run_inv_step_delete:
  assumes "run_inv st s" "view s = RUN"
  shows "run_inv st (afterRender random st s (handle st DeleteKey s))"
  using assms
  by (auto simp: inv_defs handle_def keypadShown_def handleKeypad_def afterRender_def
      timerDeps_def Let_def split: if_splits)

lemma run_inv_step_clear:
  assumes "run_inv st s" "view s = RUN"
  shows "run_inv st (afterRender random st s (handle st ClearKey s))"
  using assms
  by (auto simp: inv_defs handle_def keypadShown_def handleKeypad_def afterRender_def
      timerDeps_def Let_def split: if_splits)

lemma afterRender_same: "view s = RUN \<Longrightarrow> afterRender random st s s = s"
  by (simp add: afterRender_def)

lemma run_inv_mounted:
  "run_inv st s \<Longrightarrow> view s = RUN \<Longrightarrow> mounted_inv st s"
  by (simp add: run_inv_def)

lemma run_inv_step_confirm:
  assumes inv: "run_inv st s" and v: "view s = RUN"
  shows "run_inv st (afterRender random st s (handle st ConfirmButton s))"
proof (cases "keypadShown st s")
  case False
  then show ?thesis using inv v by (simp add: handle_def afterRender_same)
next
  case True
  then have ph: "phase s = ANSWER" and km: "answerMode st = Keypad"
    by (simp_all add: keypadShown_def)
  have m: "mounted_inv st s" using inv v by (rule run_inv_mounted)
  show ?thesis
  proof (cases "feedback st")
    case True
    then show ?thesis using inv v ph km m
      by (simp add: inv_defs handle_def keypadShown_def submitAnswer_def afterRender_def
          timerDeps_def phaseTimerEffect_def Let_def nth_append_trial)
  next
    case fb: False
    show ?thesis
    proof (cases "trialIndex s + 1 \<ge> trialsPerSet st")
      case True
      moreover have "trialIndex s < trialsPerSet st" using m by (simp add: mounted_inv_def)
      ultimately have "trialsPerSet st = Suc (trialIndex s)" by simp
      then show ?thesis using inv v ph km m fb
        by (simp add: inv_defs handle_def keypadShown_def submitAnswer_def nextTrial_def
            onFinish_def afterRender_def Let_def nth_append_trial)
    next
      case False
      then show ?thesis using inv v ph km m fb
        by (simp add: inv_defs handle_def keypadShown_def submitAnswer_def nextTrial_def
            afterRender_def timerDeps_def dataSetup_def phaseTimerEffect_def Let_def
            nth_append_trial)
    qed
  qed
qed

lemma run_inv_step_verbal:
  assumes inv: "run_inv st s" and v: "view s = RUN"
  shows "run_inv st (afterRender random st s (handle st VerbalButton s))"
proof -
  have "\<not> (phase s = ANSWER \<and> answerMode st = NoneMode)"
    using inv by (auto simp: run_inv_def)
  then have "handle st VerbalButton s = s" by (auto simp: handle_def)
  then show ?thesis using inv v by (simp add: afterRender_same)
qed


lemma run_inv_step: "run_inv st s \<Longrightarrow> run_inv st (step random st e s)"
  unfolding step_def
  by (cases e)
    (simp_all add: run_inv_step_timer run_inv_step_digit run_inv_step_delete run_inv_step_clear
      run_inv_step_confirm run_inv_step_verbal run_inv_step_pause run_inv_step_resume
      run_inv_step_abort)

lemma run_inv_run: "run_inv st s \<Longrightarrow> run_inv st (run random st es s)"
  unfolding run_def
  by (induction es arbitrary: s) (simp_all add: run_inv_step)


subsection \<open>Evaluation of the examples, and what a submission leaves behind\<close>

lemma generateStimulus_zero_4: "generateStimulus (\<lambda>i. 0) 4 Range_0_9 = ''0000''"
  by (simp add: generateStimulus_def generateStimulus_loop.simps js_mul_def binary64_0
      Math_floor_def int_toString_def nat_toString_digit)

lemmas eval_defs = run_def step_def handle_def afterRender_def timerDeps_def timerCallback_def
  nextTrial_def onFinish_def onAbort_def dataSetup_def phaseTimerEffect_def handleStartTraining_def
  initialApp_def keypadShown_def handleKeypad_def submitAnswer_def Let_def

lemma run_inv_reachable:
  "validSettings st \<Longrightarrow> run_inv st (run random st es (handleStartTraining random st a))"
  by (simp add: validSettings_def run_inv_start run_inv_run)
lemma sessionResults_length:
  assumes "validSettings st"
  shows "length (sessionResults (run random st es (handleStartTraining random st a)))
           \<le> trialsPerSet st"
proof -
  have "run_inv st (run random st es (handleStartTraining random st a))"
    using assms by (rule run_inv_reachable)
  then show ?thesis
    by (auto simp: run_inv_def mounted_inv_def unmounted_inv_def split: if_splits)
qed

lemma finished_0000:
  "sessionResults (run random_zero settings_4821 answer_0000
     (handleStartTraining random_zero settings_4821 initialApp)) =
     [\<lparr>trial = 1, stimulus = ''0000'', input = ''0000'', isCorrect = True, isVerbal = False\<rparr>]"
  by (simp add: answer_0000_def eval_defs settings_4821_def random_zero_def
      generateStimulus_zero_4 nat_toString_digit)

lemma score_spec_1_1: "score_spec (Suc 0) (Suc 0) = 100"
  by (simp add: score_spec_def round_def floor_rat_numeral_div)

lemma valid_settings_4821: "validSettings settings_4821"
  by (simp add: validSettings_def settings_4821_def)

lemma submit_leaves_ANSWER:
  assumes "view s = RUN" and "phase s = ANSWER"
  shows "view (afterRender random st s (submitAnswer st v s)) \<noteq> RUN \<or>
         phase (afterRender random st s (submitAnswer st v s)) \<noteq> ANSWER"
proof (cases "feedback st")
  case True
  then show ?thesis using assms
    by (simp add: submitAnswer_def afterRender_def timerDeps_def phaseTimerEffect_def Let_def)
next
  case False
  then show ?thesis using assms
    by (cases "trialsPerSet st \<le> trialIndex s + 1")
      (simp_all add: submitAnswer_def nextTrial_def onFinish_def afterRender_def timerDeps_def
        dataSetup_def phaseTimerEffect_def Let_def)
qed


lemma submit_event_no_op:
  assumes "view s \<noteq> RUN \<or> phase s \<noteq> ANSWER" and "e = ConfirmButton \<or> e = VerbalButton"
  shows "step random st e s = s"
proof (cases "view s = RUN")
  case False
  then show ?thesis by (simp add: step_def)
next
  case True
  then have "phase s \<noteq> ANSWER" using assms(1) by simp
  then have "handle st e s = s" using assms(2)
    by (elim disjE) (simp_all add: handle_def keypadShown_def)
  then show ?thesis using True by (simp add: step_def afterRender_same)
qed

lemma submit_event_cases:
  assumes "e = ConfirmButton \<or> e = VerbalButton"
  shows "handle st e s = s \<or> handle st e s = submitAnswer st False s \<or>
         handle st e s = submitAnswer st True s"
  using assms by (elim disjE) (simp_all add: handle_def)

lemma submit_event_leaves_ANSWER:
  assumes "e = ConfirmButton \<or> e = VerbalButton"
    and "results (step random st e s) \<noteq> results s"
  shows "view (step random st e s) \<noteq> RUN \<or> phase (step random st e s) \<noteq> ANSWER"
proof (cases "view s = RUN \<and> phase s = ANSWER")
  case False
  then have "step random st e s = s" using assms(1) by (simp add: submit_event_no_op)
  then show ?thesis using assms(2) by simp
next
  case True
  then have st: "step random st e s = afterRender random st s (handle st e s)"
    by (simp add: step_def)
  consider "handle st e s = s" | "handle st e s = submitAnswer st False s"
    | "handle st e s = submitAnswer st True s"
    using submit_event_cases [OF assms(1)] by blast
  then show ?thesis
  proof cases
    case 1
    then show ?thesis using True st assms(2) by (simp add: afterRender_same)
  next
    case 2
    then show ?thesis using True st submit_leaves_ANSWER [of s random st False] by simp
  next
    case 3
    then show ?thesis using True st submit_leaves_ANSWER [of s random st True] by simp
  qed
qed

subsection \<open>Claims about the run loop\<close>

text \<open>
  C1. Where the set ends from the timeout of HIDE (spoken answers) or from
  \<open>submitAnswer\<close> without feedback, \<open>nextTrial\<close> is called in the same closure
  that has just requested \<open>setResults\<close>: its \<open>results\<close> is the array of the render
  before, so \<open>onFinish\<close> is called once, but with the results of all trials except
  the last. Here a set of three spoken-answer trials is run to its end (three timeouts
  per trial): \<open>onFinish\<close> receives two results, not three.
\<close>

theorem C1_last_result_not_delivered:
  "finishCalls (run random_zero settings_none_3
      [TimerFires, TimerFires, TimerFires, TimerFires, TimerFires, TimerFires,
       TimerFires, TimerFires, TimerFires]
      (handleStartTraining random_zero settings_none_3 initialApp)) =
     [[\<lparr>trial = 1, stimulus = ''0000'', input = ''(None)'', isCorrect = True, isVerbal = True\<rparr>,
       \<lparr>trial = 2, stimulus = ''0000'', input = ''(None)'', isCorrect = True, isVerbal = True\<rparr>]]"
  by (simp add: eval_defs settings_none_3_def random_zero_def generateStimulus_zero_4)

text \<open>
  C2. A submission from the keypad (\<open>submitAnswer(false)\<close> in phase ANSWER) appends one
  result whose \<open>isCorrect\<close> is exactly the equality of the typed string and the
  stimulus, as strings, whatever the settings are.
\<close>

theorem C2_keypad_isCorrect:
  "phase s = ANSWER \<Longrightarrow>
     results (submitAnswer st False s) =
       results s @ [\<lparr>trial = trialIndex s + 1, stimulus = currentStimulus s,
                     input = userInput s,
                     isCorrect = (userInput s = currentStimulus s), isVerbal = False\<rparr>]"
  by (simp add: submitAnswer_def nextTrial_def onFinish_def Let_def)

theorem C2_keypad_isCorrect_witness:
  "phase (answering_4821 ''4821'') = ANSWER \<and> phase (answering_4821 ''4820'') = ANSWER \<and>
   map isCorrect (results (submitAnswer settings_4821 False (answering_4821 ''4821''))) = [True] \<and>
   map isCorrect (results (submitAnswer settings_4821 False (answering_4821 ''4820''))) = [False]"
  using C2_keypad_isCorrect [of "answering_4821 ''4821''" settings_4821]
    C2_keypad_isCorrect [of "answering_4821 ''4820''" settings_4821]
  by (simp add: answering_4821_def initialApp_def)

text \<open>
  In a run with \<open>answerMode\<close> none the phase ANSWER is never entered, and every
  result recorded, and every result handed to \<open>onFinish\<close>, has \<open>isCorrect\<close> and
  \<open>isVerbal\<close> true. A spoken submission (\<open>submitAnswer(true)\<close> in phase ANSWER, in
  any state \<open>s'\<close> and with any settings \<open>st'\<close>) records such a result as well.
\<close>

lemma none_mode_results_verbal:
  assumes "answerMode st = NoneMode" and "validSettings st"
    and "s = run random st es (handleStartTraining random st a)"
  shows "phase s \<noteq> ANSWER \<and>
         (\<forall>r \<in> set (results s). isCorrect r \<and> isVerbal r) \<and>
         (\<forall>rs \<in> set (finishCalls s). \<forall>r \<in> set rs. isCorrect r \<and> isVerbal r) \<and>
         (phase s' = ANSWER \<longrightarrow>
            isCorrect (last (results (submitAnswer st' True s'))) \<and>
            isVerbal (last (results (submitAnswer st' True s'))))"
proof -
  have inv: "run_inv st s" using assms by (simp add: run_inv_reachable)
  then have a: "phase s \<noteq> ANSWER" and b: "\<forall>r \<in> set (results s). isCorrect r \<and> isVerbal r"
    using assms(1) by (simp_all add: run_inv_def)
  have "finishCalls s = [] \<or> finishCalls s = [results s]"
    using inv by (auto simp: run_inv_def mounted_inv_def unmounted_inv_def split: if_splits)
  then have c: "\<forall>rs \<in> set (finishCalls s). \<forall>r \<in> set rs. isCorrect r \<and> isVerbal r"
    using b by auto
  have d: "phase s' = ANSWER \<longrightarrow>
            isCorrect (last (results (submitAnswer st' True s'))) \<and>
            isVerbal (last (results (submitAnswer st' True s')))"
    by (simp add: submitAnswer_def nextTrial_def onFinish_def Let_def)
  show ?thesis using a b c d by blast
qed

text \<open>
  What the timeout of HIDE does with \<open>answerMode\<close> none. Before the last trial it
  records the result of the trial and goes on to the next trial. In the last trial it
  hands the results of the trials before to \<open>onFinish\<close>; the result it has just
  queued is lost with \<open>RunSession\<close>.
\<close>

lemma none_mode_HIDE_timeout:
  assumes "answerMode st = NoneMode" and "view s = RUN" and "phase s = HIDE" and "\<not> isPaused s"
    and "pendingTimer s = expectedTimer s"
  shows "trialIndex s + 1 < trialsPerSet st \<longrightarrow>
           results (step random st TimerFires s) =
             results s @ [\<lparr>trial = trialIndex s + 1, stimulus = currentStimulus s,
                           input = ''(None)'', isCorrect = True, isVerbal = True\<rparr>] \<and>
           trialIndex (step random st TimerFires s) = trialIndex s + 1 \<and>
           phase (step random st TimerFires s) = PREP"
    and "trialsPerSet st \<le> trialIndex s + 1 \<longrightarrow>
           results (step random st TimerFires s) = results s \<and>
           view (step random st TimerFires s) = RESULT \<and>
           sessionResults (step random st TimerFires s) = results s"
  using assms
  by (simp_all add: expectedTimer_def step_def handle_def timerCallback_def nextTrial_def
      onFinish_def afterRender_def timerDeps_def dataSetup_def phaseTimerEffect_def Let_def)

text \<open>
  C3. The scenario of the specification, \<open>answerMode\<close> none and three trials, run to
  its end (nine timeouts): the phase is not ANSWER, and the results are spoken and
  correct, but there are two of them, not three. Both the last state of \<open>RunSession\<close>
  and the array \<open>ResultScreen\<close> receives hold the results of trials 1 and 2 only,
  for the reason given at C1.
\<close>

theorem C3_none_3_two_results:
  "view (run random_zero settings_none_3
      [TimerFires, TimerFires, TimerFires, TimerFires, TimerFires, TimerFires,
       TimerFires, TimerFires, TimerFires]
      (handleStartTraining random_zero settings_none_3 initialApp)) = RESULT \<and>
   phase (run random_zero settings_none_3
      [TimerFires, TimerFires, TimerFires, TimerFires, TimerFires, TimerFires,
       TimerFires, TimerFires, TimerFires]
      (handleStartTraining random_zero settings_none_3 initialApp)) \<noteq> ANSWER \<and>
   results (run random_zero settings_none_3
      [TimerFires, TimerFires, TimerFires, TimerFires, TimerFires, TimerFires,
       TimerFires, TimerFires, TimerFires]
      (handleStartTraining random_zero settings_none_3 initialApp)) =
     [\<lparr>trial = 1, stimulus = ''0000'', input = ''(None)'', isCorrect = True, isVerbal = True\<rparr>,
      \<lparr>trial = 2, stimulus = ''0000'', input = ''(None)'', isCorrect = True, isVerbal = True\<rparr>] \<and>
   sessionResults (run random_zero settings_none_3
      [TimerFires, TimerFires, TimerFires, TimerFires, TimerFires, TimerFires,
       TimerFires, TimerFires, TimerFires]
      (handleStartTraining random_zero settings_none_3 initialApp)) =
     [\<lparr>trial = 1, stimulus = ''0000'', input = ''(None)'', isCorrect = True, isVerbal = True\<rparr>,
      \<lparr>trial = 2, stimulus = ''0000'', input = ''(None)'', isCorrect = True, isVerbal = True\<rparr>]"
  by (simp add: eval_defs settings_none_3_def random_zero_def generateStimulus_zero_4)

text \<open>
  C7. In every state \<open>s\<close> a run reaches: while \<open>isPaused\<close> holds no timeout is
  pending and a timer event changes nothing; no event whatsoever takes a paused SHOW
  to another phase; pausing in SHOW clears the timeout and keeps SHOW, and the
  timeout set up again on resume is the one that leads to HIDE.
\<close>

theorem C7_no_transition_while_paused:
  assumes "validSettings st" and "s = run random st es (handleStartTraining random st a)"
  shows "(isPaused s \<and> view s = RUN \<longrightarrow>
            pendingTimer s = None \<and> step random st TimerFires s = s) \<and>
         (isPaused s \<and> phase s = SHOW \<longrightarrow> phase (step random st e s) = SHOW) \<and>
         (view s = RUN \<and> phase s = SHOW \<and> \<not> isPaused s \<longrightarrow>
            isPaused (step random st PauseButton s) \<and>
            phase (step random st PauseButton s) = SHOW \<and>
            pendingTimer (step random st PauseButton s) = None \<and>
            phase (step random st TimerFires (step random st PauseButton s)) = SHOW \<and>
            phase (step random st TimerFires
                    (step random st ResumeButton (step random st PauseButton s))) = HIDE)"
proof -
  have inv: "run_inv st s" using assms by (simp add: run_inv_reachable)
  have t: "view s = RUN \<longrightarrow> pendingTimer s = expectedTimer s"
    using inv by (auto simp: run_inv_def mounted_inv_def)
  have a: "isPaused s \<and> view s = RUN \<longrightarrow>
            pendingTimer s = None \<and> step random st TimerFires s = s"
    using t by (simp add: expectedTimer_def step_def handle_def afterRender_same)
  have b: "isPaused s \<and> phase s = SHOW \<longrightarrow> phase (step random st e s) = SHOW"
  proof (cases "view s = RUN")
    case False
    then show ?thesis by (simp add: step_def)
  next
    case True
    then show ?thesis using t
      by (cases e)
        (simp_all add: expectedTimer_def step_def handle_def keypadShown_def onAbort_def
          afterRender_def timerDeps_def phaseTimerEffect_def)
  qed
  have c: "view s = RUN \<and> phase s = SHOW \<and> \<not> isPaused s \<longrightarrow>
            isPaused (step random st PauseButton s) \<and>
            phase (step random st PauseButton s) = SHOW \<and>
            pendingTimer (step random st PauseButton s) = None \<and>
            phase (step random st TimerFires (step random st PauseButton s)) = SHOW \<and>
            phase (step random st TimerFires
                    (step random st ResumeButton (step random st PauseButton s))) = HIDE"
    by (simp add: step_def handle_def afterRender_def timerDeps_def phaseTimerEffect_def
        timerCallback_def)
  show ?thesis using a b c by blast
qed

theorem C7_no_transition_while_paused_witness:
  "validSettings settings_none_3 \<and>
   isPaused paused_none_3 \<and> view paused_none_3 = RUN \<and> phase paused_none_3 = SHOW \<and>
   pendingTimer paused_none_3 = None \<and>
   step random_zero settings_none_3 TimerFires paused_none_3 = paused_none_3 \<and>
   phase (step random_zero settings_none_3 TimerFires paused_none_3) = SHOW \<and>
   view showing_none_3 = RUN \<and> phase showing_none_3 = SHOW \<and> \<not> isPaused showing_none_3 \<and>
   phase (step random_zero settings_none_3 TimerFires
           (step random_zero settings_none_3 PauseButton showing_none_3)) = SHOW \<and>
   phase (step random_zero settings_none_3 TimerFires
           (step random_zero settings_none_3 ResumeButton
             (step random_zero settings_none_3 PauseButton showing_none_3))) = HIDE"
  using C7_no_transition_while_paused [of settings_none_3 paused_none_3 random_zero
      "[TimerFires, PauseButton]" initialApp TimerFires]
    C7_no_transition_while_paused [of settings_none_3 showing_none_3 random_zero
      "[TimerFires]" initialApp TimerFires]
  by (simp add: paused_none_3_def showing_none_3_def eval_defs settings_none_3_def
      random_zero_def generateStimulus_zero_4 validSettings_def)

text \<open>
  C8. In phase ANSWER a digit key appends its digit exactly when the input is shorter
  than \<open>digits\<close>, and leaves the input as it is otherwise; DELETE removes the last
  character; CLEAR empties the input. In every state a run reaches the input is at
  most \<open>digits\<close> long.
\<close>

theorem C8_keypad_editing:
  assumes "phase s = ANSWER" and "d < 10" and "validSettings st"
  shows "userInput (handleKeypad st (nat_toString d) s) =
           (if length (userInput s) < digits st then userInput s @ nat_toString d
            else userInput s) \<and>
         ((userInput (handleKeypad st (nat_toString d) s) = userInput s @ nat_toString d)
            = (length (userInput s) < digits st)) \<and>
         userInput (handleKeypad st ''DELETE'' s) = butlast (userInput s) \<and>
         userInput (handleKeypad st ''CLEAR'' s) = [] \<and>
         length (userInput (run random st es (handleStartTraining random st a))) \<le> digits st"
proof -
  have k: "nat_toString d \<noteq> ''DELETE''" "nat_toString d \<noteq> ''CLEAR''" "nat_toString d \<noteq> []"
    using assms(2) by (simp_all add: nat_toString_digit)
  have "run_inv st (run random st es (handleStartTraining random st a))"
    using assms(3) by (rule run_inv_reachable)
  then have "length (userInput (run random st es (handleStartTraining random st a))) \<le> digits st"
    by (simp add: run_inv_def)
  then show ?thesis using assms(1) k by (simp add: handleKeypad_def)
qed

theorem C8_keypad_editing_witness:
  "phase (answering_4821 ''482'') = ANSWER \<and> phase (answering_4821 ''4821'') = ANSWER \<and>
   (1::nat) < 10 \<and> validSettings settings_4821 \<and>
   userInput (handleKeypad settings_4821 (nat_toString 1) (answering_4821 ''482'')) = ''4821'' \<and>
   userInput (handleKeypad settings_4821 (nat_toString 1) (answering_4821 ''4821'')) = ''4821'' \<and>
   userInput (handleKeypad settings_4821 ''DELETE'' (answering_4821 ''4821'')) = ''482'' \<and>
   userInput (handleKeypad settings_4821 ''CLEAR'' (answering_4821 ''4821'')) = []"
  using C8_keypad_editing [of "answering_4821 ''482''" 1 settings_4821 random_zero "[]" initialApp]
    C8_keypad_editing [of "answering_4821 ''4821''" 1 settings_4821 random_zero "[]" initialApp]
  by (simp add: answering_4821_def initialApp_def settings_4821_def validSettings_def
      nat_toString_digit)

text \<open>
  C9 as the specification states it fails: after the only trial of a one-trial set has
  been answered, the position recorded in its result is 1, which is not below
  \<open>trialsPerSet = 1\<close>.
\<close>

theorem C9_index_counterexample:
  "trial (results (step random_zero settings_4821 ConfirmButton answer_reached) ! 0) = 1 \<and>
   \<not> trial (results (step random_zero settings_4821 ConfirmButton answer_reached) ! 0)
       < trialsPerSet settings_4821"
  by (simp add: answer_reached_def eval_defs settings_4821_def random_zero_def
      generateStimulus_zero_4)

text \<open>
  C9, as the code has it. A result carries no 0-based \<open>index\<close> but the field
  \<open>trial\<close>, which is \<open>trialIndex + 1\<close>: the result at the 0-based position \<open>i\<close> of
  \<open>results\<close> has \<open>trial = i + 1\<close>, so \<open>i < trialsPerSet\<close> and
  \<open>1 \<le> trial \<le> trialsPerSet\<close>.
\<close>

theorem C9_trial_number:
  assumes "validSettings st" and "s = run random st es (handleStartTraining random st a)"
  shows "\<forall>i < length (results s).
           trial (results s ! i) = i + 1 \<and> i < trialsPerSet st \<and>
           1 \<le> trial (results s ! i) \<and> trial (results s ! i) \<le> trialsPerSet st"
proof -
  have "run_inv st s" using assms by (simp add: run_inv_reachable)
  then show ?thesis by (simp add: run_inv_def)
qed

theorem C9_trial_number_witness:
  "validSettings settings_none_3 \<and> trialsPerSet settings_none_3 = 3 \<and>
   map trial (results (run random_zero settings_none_3
      [TimerFires, TimerFires, TimerFires, TimerFires, TimerFires, TimerFires,
       TimerFires, TimerFires, TimerFires]
      (handleStartTraining random_zero settings_none_3 initialApp))) = [1, 2]"
  using C9_trial_number [of settings_none_3 _ random_zero
      "[TimerFires, TimerFires, TimerFires, TimerFires, TimerFires, TimerFires,
        TimerFires, TimerFires, TimerFires]" initialApp, OF _ refl]
  by (simp add: eval_defs settings_none_3_def random_zero_def generateStimulus_zero_4
      validSettings_def)

text \<open>
  C10. Outside phase ANSWER \<open>handleKeypad\<close> and \<open>submitAnswer\<close> return the state
  unchanged. A submission that has recorded a result leaves phase ANSWER (or the run
  view), so that a second press of a submit button changes nothing; and the trial
  numbers of the recorded results of a run are pairwise different.
\<close>

theorem C10_no_op_outside_ANSWER:
  "(phase s \<noteq> ANSWER \<longrightarrow> handleKeypad st key s = s \<and> submitAnswer st verbal s = s) \<and>
   ((e1 = ConfirmButton \<or> e1 = VerbalButton) \<and> (e2 = ConfirmButton \<or> e2 = VerbalButton) \<and>
    results (step random st e1 s') \<noteq> results s' \<longrightarrow>
      step random st e2 (step random st e1 s') = step random st e1 s') \<and>
   (validSettings st \<longrightarrow>
      distinct (map trial (results (run random st es (handleStartTraining random st a)))))"
proof -
  have a: "phase s \<noteq> ANSWER \<longrightarrow> handleKeypad st key s = s \<and> submitAnswer st verbal s = s"
    by (simp add: handleKeypad_def submitAnswer_def)
  have b: "(e1 = ConfirmButton \<or> e1 = VerbalButton) \<and> (e2 = ConfirmButton \<or> e2 = VerbalButton) \<and>
    results (step random st e1 s') \<noteq> results s' \<longrightarrow>
      step random st e2 (step random st e1 s') = step random st e1 s'"
    using submit_event_leaves_ANSWER [of e1 random st s']
      submit_event_no_op [of "step random st e1 s'" e2 random st]
    by blast
  have c: "validSettings st \<longrightarrow>
      distinct (map trial (results (run random st es (handleStartTraining random st a))))"
  proof
    assume "validSettings st"
    then have "run_inv st (run random st es (handleStartTraining random st a))"
      by (rule run_inv_reachable)
    then have "\<forall>i < length (results (run random st es (handleStartTraining random st a))).
      trial (results (run random st es (handleStartTraining random st a)) ! i) = i + 1"
      by (simp add: run_inv_def)
    then show "distinct (map trial (results (run random st es (handleStartTraining random st a))))"
      by (simp add: distinct_conv_nth)
  qed
  show ?thesis using a b c by blast
qed

theorem C10_no_op_outside_ANSWER_witness:
  "phase showing_none_3 \<noteq> ANSWER \<and>
   handleKeypad settings_none_3 ''7'' showing_none_3 = showing_none_3 \<and>
   submitAnswer settings_none_3 False showing_none_3 = showing_none_3 \<and>
   results (step random_zero settings_4821 ConfirmButton answer_reached) \<noteq> results answer_reached \<and>
   step random_zero settings_4821 ConfirmButton
     (step random_zero settings_4821 ConfirmButton answer_reached) =
   step random_zero settings_4821 ConfirmButton answer_reached \<and>
   validSettings settings_4821 \<and>
   distinct (map trial (results (run random_zero settings_4821
     [TimerFires, TimerFires, TimerFires, ConfirmButton]
     (handleStartTraining random_zero settings_4821 initialApp))))"
  using C10_no_op_outside_ANSWER [of showing_none_3 settings_none_3 "''7''" False
      ConfirmButton ConfirmButton random_zero answer_reached]
    C10_no_op_outside_ANSWER [of showing_none_3 settings_4821 "''7''" False
      ConfirmButton ConfirmButton random_zero answer_reached
      "[TimerFires, TimerFires, TimerFires, ConfirmButton]" initialApp]
  by (simp add: showing_none_3_def answer_reached_def eval_defs settings_none_3_def
      settings_4821_def random_zero_def generateStimulus_zero_4 validSettings_def)


subsection \<open>Claims about the stimulus and the score\<close>

text \<open>
  C4. Whatever numbers \<open>Math.random()\<close> returns (Numbers in \<open>[0, 1)\<close>),
  \<open>generateStimulus(n, r)\<close> is a string of exactly \<open>n\<close> characters, each a digit
  of the range \<open>r\<close>: 0 to 9, or 1 to 9. This holds for every \<open>n\<close>, not only from 1 to 8.
\<close>

theorem C4_generateStimulus:
  assumes "\<forall>i<n. Math_random_result (random i)"
  shows "length (generateStimulus random n r) = n \<and>
         set (generateStimulus random n r) \<subseteq> set (allowedDigits r)"
proof (cases r)
  case Range_0_9
  then show ?thesis
    using assms generateStimulus_loop_digits [of 0 n random 0 "[]"]
    by (simp add: generateStimulus_def allowedDigits_def)
next
  case Range_1_9
  then show ?thesis
    using assms generateStimulus_loop_digits [of 0 n random 1 "[]"]
    by (simp add: generateStimulus_def allowedDigits_def)
qed

theorem C4_generateStimulus_witness:
  "Math_random_result (random_4821 0) \<and> Math_random_result (random_4821 1) \<and>
   Math_random_result (random_4821 2) \<and> Math_random_result (random_4821 3) \<and>
   generateStimulus random_4821 4 Range_0_9 = ''4821'' \<and>
   length (generateStimulus random_4821 4 Range_0_9) = 4 \<and>
   set (generateStimulus random_4821 4 Range_0_9) \<subseteq> set (allowedDigits Range_0_9)"
  using C4_generateStimulus [of 4 random_4821 Range_0_9]
  by (simp add: random_4821_ok generateStimulus_4821)

text \<open>
  C5 as the specification states it fails. A one-trial spoken-answer set hands an empty
  array to \<open>onFinish\<close> (see C1); \<open>ResultScreen\<close> then shows the text \<open>NaN\<close> as the
  score, and the history record made of it is exported with the score \<open>NaN\<close>.
\<close>

theorem C5_NaN_shown_counterexample:
  "view (run random_zero settings_none_1 [TimerFires, TimerFires, TimerFires]
          (handleStartTraining random_zero settings_none_1 initialApp)) = RESULT \<and>
   ResultScreen_text (sessionResults
     (run random_zero settings_none_1 [TimerFires, TimerFires, TimerFires]
       (handleStartTraining random_zero settings_none_1 initialApp))) = ''NaN'' \<and>
   exportCSV_scores (currentHistory
     (run random_zero settings_none_1 [TimerFires, TimerFires, TimerFires]
       (handleStartTraining random_zero settings_none_1 initialApp))) = Some [''NaN'']"
  by (simp add: eval_defs settings_none_1_def random_zero_def generateStimulus_zero_4
      ResultScreen_text_def ResultScreen_score_def score_def js_toString_def newRecord_def
      exportCSV_scores_def exportCSV_text_def exportCSV_score_def)

text \<open>
  C5, as the code has it. Neither \<open>ResultScreen\<close> nor \<open>exportCSV\<close> guards the
  division: over an empty result list the score is computed without an error, its
  value is \<open>NaN\<close>, and \<open>NaN\<close> is what is shown and what is written to the file.
\<close>

theorem C5_empty_score_is_NaN:
  "ResultScreen_score [] = NaN \<and> ResultScreen_text [] = ''NaN'' \<and>
   exportCSV_score (newRecord st []) = NaN \<and>
   exportCSV_scores [newRecord st []] = Some [''NaN'']"
  by (simp add: ResultScreen_text_def ResultScreen_score_def score_def js_toString_def
      newRecord_def exportCSV_scores_def exportCSV_text_def exportCSV_score_def)

text \<open>
  C6. For a result list that is not empty and has at most 39 entries the score that
  \<open>ResultScreen\<close> shows, and the score \<open>exportCSV\<close> writes for the history record of
  these results, is \<open>round(correct / total * 100)\<close>. The results a run with valid
  settings hands to \<open>ResultScreen\<close> and to the history are at most \<open>trialsPerSet\<close>,
  hence at most 20, so their score is \<open>round(correct / total * 100)\<close> whenever there
  is one.
\<close>

theorem C6_score:
  "(rs \<noteq> [] \<and> length rs \<le> 39 \<longrightarrow>
      ResultScreen_score rs = Num (score_spec (length (filter isCorrect rs)) (length rs)) \<and>
      exportCSV_score (newRecord st rs) =
        Num (score_spec (length (filter isCorrect rs)) (length rs))) \<and>
   (validSettings st \<and>
    sessionResults (run random st es (handleStartTraining random st a)) \<noteq> [] \<longrightarrow>
      length (sessionResults (run random st es (handleStartTraining random st a))) \<le> 20 \<and>
      ResultScreen_score (sessionResults (run random st es (handleStartTraining random st a))) =
        Num (score_spec
          (length (filter isCorrect
            (sessionResults (run random st es (handleStartTraining random st a)))))
          (length (sessionResults (run random st es (handleStartTraining random st a))))) \<and>
      exportCSV_score
        (newRecord st (sessionResults (run random st es (handleStartTraining random st a)))) =
        Num (score_spec
          (length (filter isCorrect
            (sessionResults (run random st es (handleStartTraining random st a)))))
          (length (sessionResults (run random st es (handleStartTraining random st a))))))"
proof -
  have A: "ResultScreen_score xs = Num (score_spec (length (filter isCorrect xs)) (length xs)) \<and>
      exportCSV_score (newRecord st xs) =
        Num (score_spec (length (filter isCorrect xs)) (length xs))"
    if "xs \<noteq> []" and "length xs \<le> 39" for xs
  proof -
    have "0 < length xs" using that(1) by simp
    moreover have "length (filter isCorrect xs) \<le> length xs" by simp
    ultimately have "score (length (filter isCorrect xs)) (length xs) =
        Num (score_spec (length (filter isCorrect xs)) (length xs))"
      unfolding score_spec_def using that(2) by (intro score_exact) simp_all
    then show ?thesis
      by (simp add: ResultScreen_score_def exportCSV_score_def newRecord_def)
  qed
  define xs where "xs = sessionResults (run random st es (handleStartTraining random st a))"
  have B: "length xs \<le> 20" if "validSettings st"
  proof -
    have "length xs \<le> trialsPerSet st"
      unfolding xs_def using that by (rule sessionResults_length)
    then show ?thesis using that by (simp add: validSettings_def)
  qed
  have "validSettings st \<and> xs \<noteq> [] \<longrightarrow>
      length xs \<le> 20 \<and>
      ResultScreen_score xs = Num (score_spec (length (filter isCorrect xs)) (length xs)) \<and>
      exportCSV_score (newRecord st xs) =
        Num (score_spec (length (filter isCorrect xs)) (length xs))"
    using A [of xs] B by auto
  then show ?thesis using A [of rs] unfolding xs_def by blast
qed

theorem C6_score_witness:
  "results_3_of_4 \<noteq> [] \<and> length results_3_of_4 \<le> 39 \<and>
   map isCorrect results_3_of_4 = [True, True, False, True] \<and>
   ResultScreen_score results_3_of_4 = Num 75 \<and>
   exportCSV_score (newRecord settings_4821 results_3_of_4) = Num 75 \<and>
   validSettings settings_4821 \<and>
   map isCorrect (sessionResults (run random_zero settings_4821 answer_0000
     (handleStartTraining random_zero settings_4821 initialApp))) = [True] \<and>
   ResultScreen_score (sessionResults (run random_zero settings_4821 answer_0000
     (handleStartTraining random_zero settings_4821 initialApp))) = Num 100"
  using C6_score [of results_3_of_4 settings_4821 random_zero answer_0000 initialApp]
  by (simp add: results_3_of_4_counts score_spec_3_4 finished_0000 score_spec_1_1
      valid_settings_4821)

text \<open>
  The bound 39 cannot be raised. With 23 correct answers out of 40, which no set of
  at most 20 trials has, the quotient \<open>23/40\<close> is rounded down to a Number, its
  product with 100 is the Number just below \<open>57.5\<close>, and the score is 57, while
  \<open>round(23 / 40 * 100) = 58\<close>.
\<close>

lemma score_23_of_40:
  "length results_23_of_40 = 40 \<and> length (filter isCorrect results_23_of_40) = 23 \<and>
   ResultScreen_score results_23_of_40 = Num 57 \<and>
   exportCSV_score (newRecord settings_4821 results_23_of_40) = Num 57 \<and>
   score_spec 23 40 = 58"
  by (simp add: results_23_of_40_counts ResultScreen_score_def exportCSV_score_def
      newRecord_def score_23_40 score_spec_23_40)

end
